theory Spec2Isabelle
  imports Main "HOL-Library.Word" "HOL-Library.Sublist"
begin

unbundle bit_operations_syntax

section \<open>Bytes, strings and little-endian integers\<close>

text \<open>
  The launcher of \<^verbatim>\<open>patcher.go\<close> works on Go byte slices and Go strings. A byte is an
  8-bit word; a Go string is a sequence of bytes, modelled as a HOL \<open>string\<close> whose
  characters are those bytes (\<open>string(buf)\<close> converts byte by byte).
\<close>

type_synonym byte = "8 word"
type_synonym uint32 = "32 word"
type_synonym int64 = "64 word"

definition char_of_byte :: "byte \<Rightarrow> char" where
  "char_of_byte b = char_of (unat b)"

definition byte_of_char :: "char \<Rightarrow> byte" where
  "byte_of_char c = of_nat (of_char c)"

text \<open>\<^verbatim>\<open>string(buf)\<close> for a byte slice.\<close>

definition go_string :: "byte list \<Rightarrow> string" where
  "go_string bs = map char_of_byte bs"

text \<open>
  \<^verbatim>\<open>binary.LittleEndian.Uint32\<close> and \<^verbatim>\<open>Uint64\<close>: the bytes are or-ed together, each
  shifted to its place. Both are applied to exactly 4 and 8 bytes by \<^verbatim>\<open>binary.Read\<close>.
\<close>

fun le_uint32 :: "byte list \<Rightarrow> uint32" where
  "le_uint32 [b0, b1, b2, b3] =
     ucast b0 OR push_bit 8 (ucast b1) OR push_bit 16 (ucast b2) OR push_bit 24 (ucast b3)"
| "le_uint32 _ = 0"

fun le_uint64 :: "byte list \<Rightarrow> int64" where
  "le_uint64 [b0, b1, b2, b3, b4, b5, b6, b7] =
     ucast b0 OR push_bit 8 (ucast b1) OR push_bit 16 (ucast b2) OR push_bit 24 (ucast b3)
     OR push_bit 32 (ucast b4) OR push_bit 40 (ucast b5) OR push_bit 48 (ucast b6)
     OR push_bit 56 (ucast b7)"
| "le_uint64 _ = 0"

section \<open>The manifest: \<^verbatim>\<open>File\<close>, \<^verbatim>\<open>VersionFile\<close> and \<^verbatim>\<open>fetchVersionFile\<close>\<close>

record File =
  PathLen :: uint32
  Path :: string
  HashLen :: uint32
  Hash :: string
  LastModified :: int64

record VersionFile =
  Padding :: "byte list"
  NumberOfFiles :: uint32
  Files :: "File list"

text \<open>The errors the program meets; it never looks inside one.\<close>

datatype error = NetError | OsError | DecodeError | ErrInvalid

text \<open>
  The loop \<^verbatim>\<open>for i := range data { data[i] ^= byte(i%0xFF + 0x69) }\<close>. The sum
  \<open>i mod 255 + 105\<close> is an \<^verbatim>\<open>int\<close>; the conversion to \<^verbatim>\<open>byte\<close> keeps its low 8 bits,
  as \<open>of_nat\<close> into an 8-bit word does.
\<close>

definition xor_key :: "nat \<Rightarrow> byte" where
  "xor_key i = of_nat (i mod 255 + 105)"

definition deobfuscate :: "byte list \<Rightarrow> byte list" where
  "deobfuscate data = map (\<lambda>(i, b). b XOR xor_key i) (enumerate 0 data)"

text \<open>
  \<^verbatim>\<open>binary.Read(buffer, order, &x)\<close> on a \<^verbatim>\<open>bytes.Buffer\<close> asks \<^verbatim>\<open>io.ReadFull\<close> for
  the \<open>n\<close> bytes of \<open>x\<close>. When the buffer holds at least \<open>n\<close> bytes they are consumed and
  decoded. When it holds fewer, \<^verbatim>\<open>ReadFull\<close> drains the buffer, \<^verbatim>\<open>binary.Read\<close> returns
  \<^verbatim>\<open>io.EOF\<close> or \<^verbatim>\<open>io.ErrUnexpectedEOF\<close> and leaves \<open>x\<close> as it was. \<open>read_full\<close> returns
  the bytes read (\<open>None\<close> for the error) and the buffer that is left.
\<close>

definition read_full :: "nat \<Rightarrow> byte list \<Rightarrow> byte list option \<times> byte list" where
  "read_full n buf = (if n \<le> length buf then (Some (take n buf), drop n buf) else (None, []))"

text \<open>
  Every call site of \<^verbatim>\<open>binary.Read\<close> in \<^verbatim>\<open>fetchVersionFile\<close> discards the error
  (\<^verbatim>\<open>_ = binary.Read(...)\<close>), and every target is freshly zeroed (a field of a new struct,
  or a slice from \<^verbatim>\<open>make\<close>). So a failed read leaves the zero value in the target: this
  is the second branch of each function below. Memory is not modelled: \<^verbatim>\<open>make\<close> succeeds
  whatever count or length the bytes declare.
\<close>

definition read_uint32 :: "byte list \<Rightarrow> uint32 \<times> byte list" where
  "read_uint32 buf = (case read_full 4 buf of
       (Some bs, rest) \<Rightarrow> (le_uint32 bs, rest)
     | (None, rest) \<Rightarrow> (0, rest))"

definition read_int64 :: "byte list \<Rightarrow> int64 \<times> byte list" where
  "read_int64 buf = (case read_full 8 buf of
       (Some bs, rest) \<Rightarrow> (le_uint64 bs, rest)
     | (None, rest) \<Rightarrow> (0, rest))"

definition read_slice :: "nat \<Rightarrow> byte list \<Rightarrow> byte list \<times> byte list" where
  "read_slice n buf = (case read_full n buf of
       (Some bs, rest) \<Rightarrow> (bs, rest)
     | (None, rest) \<Rightarrow> (replicate n 0, rest))"

text \<open>The body of the loop over \<^verbatim>\<open>versionFile.Files\<close>: one entry.\<close>

definition read_file :: "byte list \<Rightarrow> File \<times> byte list" where
  "read_file buf =
     (let (pathLen, buf1) = read_uint32 buf;
          (strBuffer, buf2) = read_slice (unat pathLen) buf1;
          (hashLen, buf3) = read_uint32 buf2;
          (hashBuffer, buf4) = read_slice (unat hashLen) buf3;
          (lastModified, buf5) = read_int64 buf4
      in (\<lparr>PathLen = pathLen, Path = go_string strBuffer,
           HashLen = hashLen, Hash = go_string hashBuffer,
           LastModified = lastModified\<rparr>, buf5))"

text \<open>The loop itself: \<^verbatim>\<open>NumberOfFiles\<close> iterations, each continuing in the buffer.\<close>

fun read_files :: "nat \<Rightarrow> byte list \<Rightarrow> File list" where
  "read_files 0 buf = []"
| "read_files (Suc n) buf = (case read_file buf of (f, rest) \<Rightarrow> f # read_files n rest)"

definition decode_version :: "byte list \<Rightarrow> VersionFile" where
  "decode_version data =
     (let buffer = deobfuscate data;
          (padding, buf1) = read_slice 16 buffer;
          (numberOfFiles, buf2) = read_uint32 buf1
      in \<lparr>Padding = padding, NumberOfFiles = numberOfFiles,
          Files = read_files (unat numberOfFiles) buf2\<rparr>)"

section \<open>The manifest format of the specification, as an encoder\<close>

text \<open>
  The wire format as the specification words it: a 16-byte reserved header, the entry count
  as a little-endian 32-bit integer, then for each entry the length-prefixed path, the
  length-prefixed hash and the 64-bit little-endian timestamp. These definitions follow the
  specification, not the source (which has no encoder); they are what the decoder above is
  compared with.
\<close>

definition le32 :: "uint32 \<Rightarrow> byte list" where
  "le32 w = [ucast w, ucast (drop_bit 8 w), ucast (drop_bit 16 w), ucast (drop_bit 24 w)]"

definition le64 :: "int64 \<Rightarrow> byte list" where
  "le64 w = [ucast w, ucast (drop_bit 8 w), ucast (drop_bit 16 w), ucast (drop_bit 24 w),
     ucast (drop_bit 32 w), ucast (drop_bit 40 w), ucast (drop_bit 48 w), ucast (drop_bit 56 w)]"

type_synonym entry = "string \<times> string \<times> int64"

fun spec_encode_entry :: "entry \<Rightarrow> byte list" where
  "spec_encode_entry (p, h, t) =
     le32 (of_nat (length p)) @ map byte_of_char p @
     le32 (of_nat (length h)) @ map byte_of_char h @ le64 t"

definition spec_encode :: "byte list \<Rightarrow> entry list \<Rightarrow> byte list" where
  "spec_encode hdr es = hdr @ le32 (of_nat (length es)) @ concat (map spec_encode_entry es)"

text \<open>The obfuscated stream: the rolling key applied to the encoded bytes.\<close>

definition spec_manifest :: "byte list \<Rightarrow> entry list \<Rightarrow> byte list" where
  "spec_manifest hdr es = deobfuscate (spec_encode hdr es)"

fun file_of_entry :: "entry \<Rightarrow> File" where
  "file_of_entry (p, h, t) = \<lparr>PathLen = of_nat (length p), Path = p,
      HashLen = of_nat (length h), Hash = h, LastModified = t\<rparr>"

text \<open>A length prefix has 32 bits: a path or hash fits when it is shorter than \<open>2 ^ 32\<close>.\<close>

definition entry_fits :: "entry \<Rightarrow> bool" where
  "entry_fits en = (case en of (p, h, t) \<Rightarrow> length p < 2 ^ 32 \<and> length h < 2 ^ 32)"


section \<open>The world outside the program\<close>

text \<open>
  The program runs against a file system, a network and three libraries (BLAKE2b,
  the S2 codec, \<^verbatim>\<open>net/http\<close>). The file system is a map from path names to files; the
  rest is a record of functions the program cannot influence.

  A path names the same file however it is spelt: \<^verbatim>\<open>verifyFiles\<close> opens
  \<^verbatim>\<open>filepath.Join(installDirectory, file.Path)\<close> and every other call uses \<^verbatim>\<open>file.Path\<close>
  relative to the working directory, which is \<^verbatim>\<open>installDirectory\<close>
  (\<^verbatim>\<open>os.Getwd()\<close> at start-up; the program never changes directory).
\<close>

type_synonym FileMode = uint32

text \<open>
  The modification time is \<open>Some t\<close> after \<^verbatim>\<open>os.Chtimes\<close> set it to \<open>t\<close> seconds, and
  \<open>None\<close> when the operating system set it at a write (the clock is not modelled).
\<close>

record node =
  n_data :: "byte list"
  n_mode :: FileMode
  n_mtime :: "int64 option"

datatype fs_op = OpOpen | OpStat | OpRead | OpAppend | OpCreate | OpWrite | OpRemove | OpChtimes

record request =
  r_url :: string
  r_range :: "string option"

text \<open>
  A response body delivers \<open>body\<close> and then ends (\<open>body_err = False\<close>) or breaks with a
  read error (\<open>body_err = True\<close>).
\<close>

record response =
  body :: "byte list"
  body_err :: bool

text \<open>
  \<^item> \<open>fails op p\<close>: the operating system refuses \<open>op\<close> on path \<open>p\<close> for a reason other
    than the file not existing (permissions, a directory in the way, a full disk);
  \<^item> \<open>http_do k x\<close>: what \<^verbatim>\<open>client.Do\<close> returns for request \<open>x\<close> when \<open>k\<close> requests
    were sent before it;
  \<^item> \<open>url_ok u\<close>: \<^verbatim>\<open>http.NewRequest\<close> accepts the URL \<open>u\<close>;
  \<^item> \<open>blake2b_256\<close>: the digest of \<^verbatim>\<open>blake2b.New256(nil)\<close>;
  \<^item> \<open>s2_decode\<close>: what \<^verbatim>\<open>s2.NewReader\<close> yields for a compressed stream: the bytes it
    produces, and whether it reached the end without error;
  \<^item> \<open>umask\<close>: the permission bits a newly created file does not get;
  \<^item> \<open>head_ok i\<close>: endpoint \<open>i\<close> answers the probe with status 200;
  \<^item> \<open>get_body u\<close>: what \<^verbatim>\<open>getFile\<close> returns for URL \<open>u\<close>;
  \<^item> \<open>worker_of k\<close>: the id of the worker that receives the \<open>k\<close>-th job of the channel.

  Every call into the environment returns: a request that never answers is not modelled.
\<close>

record env =
  fails :: "fs_op \<Rightarrow> string \<Rightarrow> bool"
  http_do :: "nat \<Rightarrow> request \<Rightarrow> error + response"
  url_ok :: "string \<Rightarrow> bool"
  blake2b_256 :: "byte list \<Rightarrow> byte list"
  s2_decode :: "byte list \<Rightarrow> byte list \<times> bool"
  umask :: FileMode
  head_ok :: "nat \<Rightarrow> bool"
  get_body :: "string \<Rightarrow> error + byte list"
  worker_of :: "nat \<Rightarrow> nat"

text \<open>
  The state the program changes: the files, the requests sent so far (a log), and the
  counter of the \<^verbatim>\<open>sync.WaitGroup\<close>.
\<close>

record world =
  files :: "string \<Rightarrow> node option"
  sent :: "request list"
  wg :: int

definition wg_Add :: "int \<Rightarrow> world \<Rightarrow> world" where
  "wg_Add k w = w\<lparr>wg := wg w + k\<rparr>"

definition wg_Done :: "world \<Rightarrow> world" where
  "wg_Done w = w\<lparr>wg := wg w - 1\<rparr>"

subsection \<open>File-system calls\<close>

definition os_Open :: "env \<Rightarrow> world \<Rightarrow> string \<Rightarrow> error + node" where
  "os_Open e w p = (case files w p of
       None \<Rightarrow> Inl OsError
     | Some n \<Rightarrow> if fails e OpOpen p then Inl OsError else Inr n)"

definition os_Stat :: "env \<Rightarrow> world \<Rightarrow> string \<Rightarrow> error + node" where
  "os_Stat e w p = (case files w p of
       None \<Rightarrow> Inl OsError
     | Some n \<Rightarrow> if fails e OpStat p then Inl OsError else Inr n)"

text \<open>
  \<^verbatim>\<open>os.Create\<close>: \<^verbatim>\<open>O_RDWR|O_CREATE|O_TRUNC\<close> with permission \<^verbatim>\<open>0666\<close>. An existing file
  is emptied and keeps its mode; a new one gets \<^verbatim>\<open>0666\<close> less the umask (438 is octal 666).
\<close>

definition os_Create :: "env \<Rightarrow> world \<Rightarrow> string \<Rightarrow> error + world" where
  "os_Create e w p =
     (if fails e OpCreate p then Inl OsError
      else Inr (w\<lparr>files := (files w)(p \<mapsto> (case files w p of
          None \<Rightarrow> \<lparr>n_data = [], n_mode = 438 AND NOT (umask e), n_mtime = None\<rparr>
        | Some n \<Rightarrow> n\<lparr>n_data := [], n_mtime := None\<rparr>))\<rparr>))"

text \<open>
  Writing to an open file. Both ways the program opens a file for writing put the new bytes
  at the end: \<^verbatim>\<open>O_APPEND\<close>, and a file just emptied by \<^verbatim>\<open>os.Create\<close>.
\<close>

definition file_write :: "env \<Rightarrow> world \<Rightarrow> string \<Rightarrow> byte list \<Rightarrow> error + world" where
  "file_write e w p bs =
     (if fails e OpWrite p then Inl OsError
      else case files w p of
          None \<Rightarrow> Inl OsError
        | Some n \<Rightarrow> Inr (w\<lparr>files := (files w)(p \<mapsto> n\<lparr>n_data := n_data n @ bs, n_mtime := None\<rparr>)\<rparr>))"

text \<open>\<^verbatim>\<open>os.Remove\<close> and \<^verbatim>\<open>os.Chtimes\<close>; the program discards their errors.\<close>

definition os_Remove :: "env \<Rightarrow> world \<Rightarrow> string \<Rightarrow> world" where
  "os_Remove e w p = (if fails e OpRemove p then w else w\<lparr>files := (files w)(p := None)\<rparr>)"

definition os_Chtimes :: "env \<Rightarrow> world \<Rightarrow> string \<Rightarrow> int64 \<Rightarrow> world" where
  "os_Chtimes e w p t =
     (if fails e OpChtimes p then w
      else case files w p of
          None \<Rightarrow> w
        | Some n \<Rightarrow> w\<lparr>files := (files w)(p \<mapsto> n\<lparr>n_mtime := Some t\<rparr>)\<rparr>)"

subsection \<open>Formatting\<close>

text \<open>\<^verbatim>\<open>%v\<close> of a non-negative integer: its decimal digits.\<close>

fun show_nat :: "nat \<Rightarrow> string" where
  "show_nat n = (if n < 10 then [char_of (48 + n)]
     else show_nat (n div 10) @ [char_of (48 + n mod 10)])"

declare show_nat.simps [simp del]

text \<open>\<^verbatim>\<open>hex.EncodeToString\<close>: two characters of \<^verbatim>\<open>"0123456789abcdef"\<close> for each byte.\<close>

definition hextable :: string where
  "hextable = ''0123456789abcdef''"

definition hex_EncodeToString :: "byte list \<Rightarrow> string" where
  "hex_EncodeToString src =
     concat (map (\<lambda>v. [hextable ! unat (drop_bit 4 v), hextable ! unat (v AND 15)]) src)"


section \<open>The program\<close>

subsection \<open>\<^verbatim>\<open>checkCDNStatus\<close>, \<^verbatim>\<open>getFile\<close> and \<^verbatim>\<open>fetchVersionFile\<close>\<close>


definition DefaultForceDownload :: bool where
  "DefaultForceDownload = False"


definition getFile :: "env \<Rightarrow> string \<Rightarrow> error + byte list" where
  "getFile e path = get_body e path"

text \<open>
  \<^verbatim>\<open>fetchVersionFile\<close> returns the error of \<^verbatim>\<open>getFile\<close>, or else the decoded manifest
  with a \<^verbatim>\<open>nil\<close> error: its only \<^verbatim>\<open>return\<close> after the fetch is
  \<^verbatim>\<open>return versionFile, nil\<close>.
\<close>

definition version_url :: "nat \<Rightarrow> string" where
  "version_url cdn = ''https://cdn'' @ show_nat cdn @ ''.burningsw.to/version.bin''"

definition fetchVersionFile :: "env \<Rightarrow> nat list \<Rightarrow> error + VersionFile" where
  "fetchVersionFile e onlineCDNs = (case getFile e (version_url (onlineCDNs ! 0)) of
       Inl err \<Rightarrow> Inl err
     | Inr data \<Rightarrow> Inr (decode_version data))"

subsection \<open>\<^verbatim>\<open>verifyFiles\<close>\<close>

text \<open>
  The loop body ends in one of three ways, each with its own message: the entry is appended
  to \<^verbatim>\<open>toDownload\<close> (\<^verbatim>\<open>"Need to download."\<close>), it is skipped
  (\<^verbatim>\<open>"File is custom (read-only), skipping."\<close>), or it is accepted (\<^verbatim>\<open>"OK."\<close>) and its
  modification time is set. \<^verbatim>\<open>os.FileMode(0444)\<close> is 292.
\<close>

datatype verdict = NeedDownload | Skipped | OK

definition verify_file :: "env \<Rightarrow> world \<Rightarrow> File \<Rightarrow> verdict \<times> world" where
  "verify_file e w file =
     (let fileName = Path file in
      case os_Open e w fileName of
        Inl err \<Rightarrow> (NeedDownload, w)
      | Inr localFile \<Rightarrow>
          if \<not> fails e OpStat fileName \<and> n_mode localFile = 292 then (Skipped, w)
          else if fails e OpRead fileName then (NeedDownload, w)
          else
            let hash = hex_EncodeToString (blake2b_256 e (n_data localFile)) in
            if hash \<noteq> Hash file then (NeedDownload, w)
            else (OK, os_Chtimes e w (Path file) (LastModified file)))"

fun verifyFiles_loop :: "env \<Rightarrow> File list \<Rightarrow> File list \<Rightarrow> world \<Rightarrow> File list \<times> world" where
  "verifyFiles_loop e [] toDownload w = (toDownload, w)"
| "verifyFiles_loop e (file # rest) toDownload w =
     (case verify_file e w file of
        (NeedDownload, w') \<Rightarrow> verifyFiles_loop e rest (toDownload @ [file]) w'
      | (_, w') \<Rightarrow> verifyFiles_loop e rest toDownload w')"

definition verifyFiles :: "env \<Rightarrow> File list \<Rightarrow> world \<Rightarrow> File list \<times> world" where
  "verifyFiles e fs w = verifyFiles_loop e fs [] w"

subsection \<open>\<^verbatim>\<open>downloadFile\<close>\<close>

text \<open>
  A call of \<^verbatim>\<open>downloadFile\<close> returns \<^verbatim>\<open>nil\<close>, returns an error, or ends the process
  (\<^verbatim>\<open>log.Fatal\<close> when \<^verbatim>\<open>http.NewRequest\<close> rejects the URL).
\<close>

datatype dl_result = DlOk | DlErr error | DlFatal

definition tmp_name :: "string \<Rightarrow> string" where
  "tmp_name filename = filename @ ''.tmp''"

definition range_header :: "nat \<Rightarrow> string" where
  "range_header currPosition = ''bytes='' @ show_nat currPosition @ ''-''"

text \<open>
  Lines 217 to 234: the request and the handle \<^verbatim>\<open>out\<close>. In the first branch a failure to
  open the partial file is returned. In the second the error of \<^verbatim>\<open>os.Create\<close> is
  overwritten by the next assignment to \<^verbatim>\<open>err\<close>, so the call goes on with a \<^verbatim>\<open>nil\<close>
  handle: the flag in the result says whether \<^verbatim>\<open>out\<close> is a real handle.
\<close>

definition open_out ::
  "env \<Rightarrow> string \<Rightarrow> string \<Rightarrow> bool \<Rightarrow> world \<Rightarrow> error + (request \<times> bool \<times> world)" where
  "open_out e filename url force w =
     (case os_Stat e w (tmp_name filename) of
        Inr info \<Rightarrow>
          if \<not> force then
            (let currPosition = length (n_data info);
                 x = \<lparr>r_url = url, r_range = Some (range_header currPosition)\<rparr>
             in if fails e OpAppend (tmp_name filename) then Inl OsError
                else Inr (x, True, w))
          else
            (case os_Create e w (tmp_name filename) of
               Inl err \<Rightarrow> Inr (\<lparr>r_url = url, r_range = None\<rparr>, False, w)
             | Inr w' \<Rightarrow> Inr (\<lparr>r_url = url, r_range = None\<rparr>, True, w'))
      | Inl err \<Rightarrow>
          (case os_Create e w (tmp_name filename) of
             Inl err \<Rightarrow> Inr (\<lparr>r_url = url, r_range = None\<rparr>, False, w)
           | Inr w' \<Rightarrow> Inr (\<lparr>r_url = url, r_range = None\<rparr>, True, w')))"

text \<open>
  Lines 207 to 267: the transfer into the partial file. \<^verbatim>\<open>io.Copy\<close> to a \<^verbatim>\<open>nil\<close> file
  fails with \<^verbatim>\<open>os.ErrInvalid\<close> before anything is read. A body that breaks has delivered
  its bytes to the partial file before the error is returned.
\<close>

definition fetch_partial :: "env \<Rightarrow> File \<Rightarrow> string \<Rightarrow> bool \<Rightarrow> world \<Rightarrow> dl_result \<times> world" where
  "fetch_partial e file url force w =
     (let filename = Path file in
      if \<not> url_ok e url then (DlFatal, w)
      else case open_out e filename url force w of
        Inl err \<Rightarrow> (DlErr err, w)
      | Inr (x, out_ok, w1) \<Rightarrow>
          (let w2 = w1\<lparr>sent := sent w1 @ [x]\<rparr> in
           case http_do e (length (sent w1)) x of
             Inl err \<Rightarrow> (DlErr err, w2)
           | Inr resp \<Rightarrow>
               if \<not> out_ok then (DlErr ErrInvalid, w2)
               else (case file_write e w2 (tmp_name filename) (body resp) of
                  Inl err \<Rightarrow> (DlErr err, w2)
                | Inr w3 \<Rightarrow> if body_err resp then (DlErr NetError, w3) else (DlOk, w3))))"

text \<open>
  Lines 271 to 294: the destination is created, the partial file is reopened and
  decompressed into it, the partial file is removed, the modification time is set and the
  wait group is told.
\<close>

definition install_partial :: "env \<Rightarrow> File \<Rightarrow> world \<Rightarrow> dl_result \<times> world" where
  "install_partial e file w =
     (let filename = Path file in
      case os_Create e w filename of
        Inl err \<Rightarrow> (DlErr err, w)
      | Inr w1 \<Rightarrow>
          (case os_Open e w1 (tmp_name filename) of
             Inl err \<Rightarrow> (DlErr err, w1)
           | Inr out \<Rightarrow>
               if fails e OpRead (tmp_name filename) then (DlErr OsError, w1)
               else
                 (let (plain, ok) = s2_decode e (n_data out) in
                  case file_write e w1 filename plain of
                    Inl err \<Rightarrow> (DlErr err, w1)
                  | Inr w2 \<Rightarrow>
                      if \<not> ok then (DlErr DecodeError, w2)
                      else
                        (let w3 = os_Remove e w2 (tmp_name filename);
                             w4 = os_Chtimes e w3 (Path file) (LastModified file)
                         in (DlOk, wg_Done w4)))))"

definition downloadFile :: "env \<Rightarrow> File \<Rightarrow> string \<Rightarrow> bool \<Rightarrow> world \<Rightarrow> dl_result \<times> world" where
  "downloadFile e file url force w =
     (case fetch_partial e file url force w of
        (DlOk, w1) \<Rightarrow> install_partial e file w1
      | (r, w1) \<Rightarrow> (r, w1))"

subsection \<open>\<^verbatim>\<open>worker\<close> and \<^verbatim>\<open>downloadFiles\<close>\<close>

fun is_err :: "dl_result \<Rightarrow> bool" where
  "is_err (DlErr err) = True"
| "is_err _ = False"

text \<open>
  The inner \<^verbatim>\<open>for { ... }\<close> of \<^verbatim>\<open>worker\<close>, for one job. Beside the new state it returns
  the calls of \<^verbatim>\<open>downloadFile\<close> it made, in order: the \<^verbatim>\<open>force\<close> flag of each call and
  its result.
\<close>

function worker_loop ::
  "env \<Rightarrow> File \<Rightarrow> string \<Rightarrow> bool \<Rightarrow> world \<Rightarrow> (bool \<times> dl_result) list \<times> world" where
  "worker_loop e j formattedUrl force w =
     (let (r, w') = downloadFile e j formattedUrl force w in
      if is_err r then
        (if force then ([(force, r)], wg_Done w')
         else (let (calls, w'') = worker_loop e j formattedUrl True w'
               in ((force, r) # calls, w'')))
      else ([(force, r)], w'))"
  by pat_completeness auto
termination
  by (relation "measure (\<lambda>(e, j, formattedUrl, force, w). if force then 0 else 1)") auto

declare worker_loop.simps [simp del]

definition format_url :: "nat \<Rightarrow> string \<Rightarrow> string" where
  "format_url cdn path =
     map (\<lambda>c. if c = CHR 0x5C then CHR ''/'' else c)
       (''https://cdn'' @ show_nat cdn @ ''.burningsw.to/'' @ path)"

text \<open>One job taken from the channel by the worker with id \<open>wid\<close>; \<^verbatim>\<open>onlineServers\<close> is
  the length of \<^verbatim>\<open>onlineCDNs\<close>.\<close>

definition worker_job ::
  "env \<Rightarrow> nat list \<Rightarrow> nat \<Rightarrow> File \<Rightarrow> world \<Rightarrow> (bool \<times> dl_result) list \<times> world" where
  "worker_job e onlineCDNs wid j w =
     worker_loop e j (format_url (onlineCDNs ! (wid mod length onlineCDNs)) (Path j))
       DefaultForceDownload w"



subsection \<open>\<^verbatim>\<open>main\<close>\<close>




section \<open>Notions used to state the claims\<close>

text \<open>What \<^verbatim>\<open>verifyFiles\<close> can observe of a path: the bytes and the mode of its file.\<close>

definition content :: "world \<Rightarrow> string \<Rightarrow> (byte list \<times> FileMode) option" where
  "content w p = map_option (\<lambda>n. (n_data n, n_mode n)) (files w p)"

text \<open>
  The file at a path is protected when \<^verbatim>\<open>verifyFiles\<close> can see that it is: it opens, its
  \<^verbatim>\<open>Stat\<close> succeeds and the mode is exactly \<^verbatim>\<open>0444\<close>.
\<close>

definition protected :: "env \<Rightarrow> world \<Rightarrow> string \<Rightarrow> bool" where
  "protected e w p = (\<exists>n. files w p = Some n \<and> \<not> fails e OpOpen p \<and> \<not> fails e OpStat p \<and> n_mode n = 292)"





section \<open>Concrete environments\<close>

text \<open>
  Stand-ins for the libraries and the network, small enough to run the definitions on
  concrete inputs: no file-system fault, a network that refuses every request, an identity
  digest and an identity codec.
\<close>

definition test_env :: env where
  "test_env = \<lparr>fails = (\<lambda>op p. False), http_do = (\<lambda>k x. Inl NetError), url_ok = (\<lambda>u. True),
     blake2b_256 = (\<lambda>d. d), s2_decode = (\<lambda>d. (d, True)), umask = 18,
     head_ok = (\<lambda>i. True), get_body = (\<lambda>u. Inl NetError), worker_of = (\<lambda>k. k)\<rparr>"


definition zero_header :: "byte list" where
  "zero_header = [0, 0, 0, 0, 0, 0, 0, 0, 0, 0, 0, 0, 0, 0, 0, 0]"



text \<open>
  A small installation: \<open>a\<close> is up to date for \<open>file_a\<close> (the stand-in digest of
  \<open>[1]\<close> prints as \<open>01\<close>), \<open>b\<close> has mode \<^verbatim>\<open>0440\<close> and another content than
  \<open>file_b\<close> records, \<open>c\<close> has mode \<^verbatim>\<open>0444\<close>, and \<open>d\<close> does not exist.
\<close>

definition test_world :: world where
  "test_world = \<lparr>files =
      [''a'' \<mapsto> \<lparr>n_data = [1], n_mode = 420, n_mtime = None\<rparr>,
       ''b'' \<mapsto> \<lparr>n_data = [2], n_mode = 288, n_mtime = None\<rparr>,
       ''c'' \<mapsto> \<lparr>n_data = [3], n_mode = 292, n_mtime = None\<rparr>],
     sent = [], wg = 0\<rparr>"

definition file_a :: File where
  "file_a = \<lparr>PathLen = 1, Path = ''a'', HashLen = 2, Hash = ''01'', LastModified = 7\<rparr>"

definition file_b :: File where
  "file_b = \<lparr>PathLen = 1, Path = ''b'', HashLen = 2, Hash = ''ff'', LastModified = 7\<rparr>"

definition file_c :: File where
  "file_c = \<lparr>PathLen = 1, Path = ''c'', HashLen = 2, Hash = ''ff'', LastModified = 7\<rparr>"

definition file_d :: File where
  "file_d = \<lparr>PathLen = 1, Path = ''d'', HashLen = 2, Hash = ''ff'', LastModified = 7\<rparr>"

text \<open>
  A network that answers every request with the one-byte body \<open>[9]\<close>; the same with a
  codec that rejects every stream; and an installation holding a two-byte partial file.
\<close>

definition serving_env :: env where
  "serving_env = test_env\<lparr>http_do := (\<lambda>k x. Inr \<lparr>body = [9], body_err = False\<rparr>)\<rparr>"

definition broken_codec_env :: env where
  "broken_codec_env = serving_env\<lparr>s2_decode := (\<lambda>d. ([], False))\<rparr>"

definition resume_world :: world where
  "resume_world = \<lparr>files = [''d.tmp'' \<mapsto> \<lparr>n_data = [7, 8], n_mode = 420, n_mtime = None\<rparr>],
     sent = [], wg = 1\<rparr>"












section \<open>Little-endian integers and the rolling key\<close>

lemma le_uint32_le32: "le_uint32 (le32 w) = w"
proof (rule bit_word_eqI)
  fix n assume n: "n < LENGTH(32)"
  then have n32: "n < 32" by simp
  consider "n < 8" | "8 \<le> n" "n < 16" | "16 \<le> n" "n < 24" | "24 \<le> n" "n < 32"
    using n32 by linarith
  then show "bit (le_uint32 (le32 w)) n = bit w n"
  proof cases
    case 1 then show ?thesis by (auto simp add: le32_def bit_simps)
  next
    case 2 then show ?thesis by (auto simp add: le32_def bit_simps)
  next
    case 3 then show ?thesis by (auto simp add: le32_def bit_simps)
  next
    case 4 then show ?thesis by (auto simp add: le32_def bit_simps)
  qed
qed


lemma le_uint64_le64: "le_uint64 (le64 w) = w"
proof (rule bit_word_eqI)
  fix n assume n: "n < LENGTH(64)"
  then have n64: "n < 64" by simp
  consider "n < 8" | "8 \<le> n" "n < 16" | "16 \<le> n" "n < 24" | "24 \<le> n" "n < 32"
    | "32 \<le> n" "n < 40" | "40 \<le> n" "n < 48" | "48 \<le> n" "n < 56" | "56 \<le> n" "n < 64"
    using n64 by linarith
  then show "bit (le_uint64 (le64 w)) n = bit w n"
  proof cases
    case 1 then show ?thesis by (auto simp add: le64_def bit_simps)
  next
    case 2 then show ?thesis by (auto simp add: le64_def bit_simps)
  next
    case 3 then show ?thesis by (auto simp add: le64_def bit_simps)
  next
    case 4 then show ?thesis by (auto simp add: le64_def bit_simps)
  next
    case 5 then show ?thesis by (auto simp add: le64_def bit_simps)
  next
    case 6 then show ?thesis by (auto simp add: le64_def bit_simps)
  next
    case 7 then show ?thesis by (auto simp add: le64_def bit_simps)
  next
    case 8 then show ?thesis by (auto simp add: le64_def bit_simps)
  qed
qed


lemma length_le32: "length (le32 w) = 4" by (simp add: le32_def)
lemma length_le64: "length (le64 w) = 8" by (simp add: le64_def)

lemma read_full_append: "length a = n \<Longrightarrow> read_full n (a @ rest) = (Some a, rest)"
  by (simp add: read_full_def)

lemma read_uint32_le32: "read_uint32 (le32 w @ rest) = (w, rest)"
  by (simp add: read_uint32_def read_full_append length_le32 le_uint32_le32)

lemma read_int64_le64: "read_int64 (le64 w @ rest) = (w, rest)"
  by (simp add: read_int64_def read_full_append length_le64 le_uint64_le64)

lemma read_slice_append: "length a = n \<Longrightarrow> read_slice n (a @ rest) = (a, rest)"
  by (simp add: read_slice_def read_full_append)

lemma char_byte: "char_of_byte (byte_of_char c) = c"
  by (simp add: char_of_byte_def byte_of_char_def unat_of_nat)

lemma go_string_bytes: "go_string (map byte_of_char s) = s"
  by (simp add: go_string_def char_byte map_idI)

lemma unat_len32: "n < 2 ^ 32 \<Longrightarrow> unat (of_nat n :: uint32) = n"
  by (simp add: unat_of_nat)

lemma read_file_encode:
  "entry_fits e \<Longrightarrow> read_file (spec_encode_entry e @ rest) = (file_of_entry e, rest)"
  by (cases e) (simp add: entry_fits_def read_file_def read_uint32_le32 read_slice_append
      read_int64_le64 unat_len32 go_string_bytes)

lemma read_files_encode:
  "list_all entry_fits es \<Longrightarrow>
   read_files (length es) (concat (map spec_encode_entry es) @ rest) = map file_of_entry es"
  by (induction es) (simp_all add: read_file_encode del: spec_encode_entry.simps file_of_entry.simps)

lemma length_deobfuscate: "length (deobfuscate d) = length d"
  by (simp add: deobfuscate_def)

lemma nth_deobfuscate: "i < length d \<Longrightarrow> deobfuscate d ! i = d ! i XOR xor_key i"
  by (simp add: deobfuscate_def nth_enumerate_eq)

lemma deobfuscate_invol: "deobfuscate (deobfuscate d) = d"
  by (rule nth_equalityI) (simp_all add: length_deobfuscate nth_deobfuscate xor.assoc)

lemma decode_deobfuscated:
  "decode_version (deobfuscate bs) =
     (let (padding, buf1) = read_slice 16 bs; (numberOfFiles, buf2) = read_uint32 buf1
      in \<lparr>Padding = padding, NumberOfFiles = numberOfFiles,
          Files = read_files (unat numberOfFiles) buf2\<rparr>)"
  by (simp add: decode_version_def deobfuscate_invol)

lemma decode_encode:
  assumes "length hdr = 16" "length es < 2 ^ 32" "list_all entry_fits es"
  shows "decode_version (deobfuscate (spec_encode hdr es)) =
     \<lparr>Padding = hdr, NumberOfFiles = of_nat (length es), Files = map file_of_entry es\<rparr>"
  using assms read_files_encode[of es "[]"]
  by (simp add: decode_deobfuscated spec_encode_def read_slice_append read_uint32_le32 unat_len32)







section \<open>Claims about the manifest loader\<close>




text \<open>
  C5: applying the rolling-key exclusive-or twice gives back the bytes; and when the manifest
  fetched is the obfuscated encoding of a 16-byte header and a list of entries (path, hash,
  timestamp) whose lengths fit their 32-bit prefixes, \<^verbatim>\<open>fetchVersionFile\<close> returns a
  manifest whose count is the number of entries and whose entries are the entries encoded.
\<close>

theorem manifest_roundtrip:
  "deobfuscate (deobfuscate bs) = bs \<and>
   (length hdr = 16 \<and> length es < 2 ^ 32 \<and> list_all entry_fits es \<and>
    getFile e (version_url (cdns ! 0)) = Inr (spec_manifest hdr es) \<longrightarrow>
      (\<exists>vf. fetchVersionFile e cdns = Inr vf \<and> Padding vf = hdr \<and>
         unat (NumberOfFiles vf) = length es \<and> length (Files vf) = length es \<and>
         Files vf = map file_of_entry es \<and>
         map (\<lambda>f. (Path f, Hash f, LastModified f)) (Files vf) = es))"
proof (intro conjI impI)
  show "deobfuscate (deobfuscate bs) = bs" by (rule deobfuscate_invol)
next
  assume h: "length hdr = 16 \<and> length es < 2 ^ 32 \<and> list_all entry_fits es \<and>
    getFile e (version_url (cdns ! 0)) = Inr (spec_manifest hdr es)"
  then have dec: "decode_version (spec_manifest hdr es) =
      \<lparr>Padding = hdr, NumberOfFiles = of_nat (length es), Files = map file_of_entry es\<rparr>"
    unfolding spec_manifest_def by (simp add: decode_encode)
  have inv: "map (\<lambda>f. (Path f, Hash f, LastModified f)) (map file_of_entry es) = es"
    by (induction es) auto
  from h dec inv show "\<exists>vf. fetchVersionFile e cdns = Inr vf \<and> Padding vf = hdr \<and>
         unat (NumberOfFiles vf) = length es \<and> length (Files vf) = length es \<and>
         Files vf = map file_of_entry es \<and>
         map (\<lambda>f. (Path f, Hash f, LastModified f)) (Files vf) = es"
    by (simp add: fetchVersionFile_def unat_len32)
qed

theorem manifest_roundtrip_witness:
  "length zero_header = 16 \<and> list_all entry_fits [(''a'', ''ff'', 7)] \<and>
   (\<exists>vf. fetchVersionFile
        (test_env\<lparr>get_body := (\<lambda>u. Inr (spec_manifest zero_header [(''a'', ''ff'', 7)]))\<rparr>) [0]
        = Inr vf \<and>
      unat (NumberOfFiles vf) = 1 \<and>
      Files vf = [\<lparr>PathLen = 1, Path = ''a'', HashLen = 2, Hash = ''ff'', LastModified = 7\<rparr>])"
  using manifest_roundtrip
    [of "[]" zero_header "[(''a'', ''ff'', 7)]"
        "test_env\<lparr>get_body := (\<lambda>u. Inr (spec_manifest zero_header [(''a'', ''ff'', 7)]))\<rparr>" "[0]"]
  by (auto simp add: getFile_def zero_header_def entry_fits_def)

section \<open>What verification observes and changes\<close>

lemma content_Chtimes: "content (os_Chtimes e w p t) = content w"
  by (auto simp add: content_def os_Chtimes_def fun_eq_iff split: option.splits)

lemma verify_file_content: "content (snd (verify_file e w f)) = content w"
  by (cases "os_Open e w (Path f)") (simp_all add: verify_file_def Let_def content_Chtimes)

lemma verify_file_sent: "sent (snd (verify_file e w f)) = sent w \<and> wg (snd (verify_file e w f)) = wg w"
  by (cases "os_Open e w (Path f)"; cases "files w (Path f)")
     (simp_all add: verify_file_def Let_def os_Chtimes_def)

lemma verify_file_cong:
  assumes "content w' = content w"
  shows "fst (verify_file e w' f) = fst (verify_file e w f)"
proof -
  from assms have "content w' (Path f) = content w (Path f)" by simp
  then show ?thesis
    by (cases "files w (Path f)"; cases "files w' (Path f)")
       (simp_all add: content_def verify_file_def os_Open_def Let_def)
qed

lemma verifyFiles_loop_char:
  "content w = content w0 \<Longrightarrow>
   \<exists>w'. verifyFiles_loop e fs acc w =
     (acc @ filter (\<lambda>f. fst (verify_file e w0 f) = NeedDownload) fs, w') \<and>
     content w' = content w0 \<and> sent w' = sent w \<and> wg w' = wg w"
proof (induction fs arbitrary: acc w)
  case Nil
  then show ?case by simp
next
  case (Cons f fs)
  obtain v w1 where vf: "verify_file e w f = (v, w1)" by (cases "verify_file e w f")
  have c1: "content w1 = content w0"
    using verify_file_content[of e w f] vf Cons.prems by simp
  have s1: "sent w1 = sent w" "wg w1 = wg w" using verify_file_sent[of e w f] vf by simp_all
  have v0: "fst (verify_file e w0 f) = v"
    using verify_file_cong[OF Cons.prems, of e f] vf by simp
  show ?case
  proof (cases v)
    case NeedDownload
    with Cons.IH[OF c1, of "acc @ [f]"] vf v0 s1 show ?thesis by simp
  next
    case Skipped
    with Cons.IH[OF c1, of acc] vf v0 s1 show ?thesis by simp
  next
    case OK
    with Cons.IH[OF c1, of acc] vf v0 s1 show ?thesis by simp
  qed
qed

lemma verifyFiles_char:
  "\<exists>w'. verifyFiles e fs w = (filter (\<lambda>f. fst (verify_file e w f) = NeedDownload) fs, w') \<and>
     content w' = content w \<and> sent w' = sent w \<and> wg w' = wg w"
  using verifyFiles_loop_char[of w w e fs "[]"] by (simp add: verifyFiles_def)

lemma verify_file_OK_iff:
  "fst (verify_file e w f) = OK \<longleftrightarrow>
     (\<exists>n. files w (Path f) = Some n \<and> \<not> fails e OpOpen (Path f) \<and>
        \<not> (\<not> fails e OpStat (Path f) \<and> n_mode n = 292) \<and> \<not> fails e OpRead (Path f) \<and>
        hex_EncodeToString (blake2b_256 e (n_data n)) = Hash f)"
  by (cases "files w (Path f)") (simp_all add: verify_file_def os_Open_def Let_def)

lemma verify_file_Skipped_iff:
  "fst (verify_file e w f) = Skipped \<longleftrightarrow> protected e w (Path f)"
  by (cases "files w (Path f)") (simp_all add: verify_file_def os_Open_def Let_def protected_def)

lemma verify_file_Need_iff:
  "fst (verify_file e w f) = NeedDownload \<longleftrightarrow>
     (files w (Path f) = None \<or> fails e OpOpen (Path f) \<or>
      (\<not> protected e w (Path f) \<and>
        (fails e OpRead (Path f) \<or>
         (\<exists>n. files w (Path f) = Some n \<and> hex_EncodeToString (blake2b_256 e (n_data n)) \<noteq> Hash f))))"
  by (cases "files w (Path f)") (simp_all add: verify_file_def os_Open_def Let_def protected_def)

lemma queued_iff:
  "f \<in> set (fst (verifyFiles e fs w)) \<longleftrightarrow> f \<in> set fs \<and> fst (verify_file e w f) = NeedDownload"
  using verifyFiles_char[of e fs w] by auto

lemma hex_01: "hex_EncodeToString [1] = ''01''"
  by (simp add: hex_EncodeToString_def hextable_def)

lemma hex_02: "hex_EncodeToString [2] = ''02''"
  by (simp add: hex_EncodeToString_def hextable_def)

lemma verify_a: "verify_file test_env test_world file_a = (OK, os_Chtimes test_env test_world ''a'' 7)"
  by (simp add: verify_file_def os_Open_def test_env_def test_world_def file_a_def hex_01 Let_def)

lemma verify_b: "verify_file test_env test_world file_b = (NeedDownload, test_world)"
  by (simp add: verify_file_def os_Open_def test_env_def test_world_def file_b_def hex_02)



lemma b_not_protected: "\<not> protected test_env test_world ''b''"
  by (simp add: protected_def test_world_def)

section \<open>Claims about the inventory verifier\<close>

text \<open>
  C3: an entry that \<^verbatim>\<open>verifyFiles\<close> accepts (\<open>OK\<close>, the specification's UpToDate) has a
  local file whose content digest, hex-encoded, equals the recorded hash as a string; an
  entry of the manifest that is neither queued nor protected was accepted; and every
  entry whose file opens and reads, is not protected and has another digest is classified
  as needing download and is in the queue returned.
\<close>

theorem verifyFiles_digest:
  "(fst (verify_file e w f) = OK \<longrightarrow>
      (\<exists>n. files w (Path f) = Some n \<and>
         hex_EncodeToString (blake2b_256 e (n_data n)) = Hash f)) \<and>
   (f \<in> set fs \<and> f \<notin> set (fst (verifyFiles e fs w)) \<and> \<not> protected e w (Path f) \<longrightarrow>
      fst (verify_file e w f) = OK) \<and>
   (f \<in> set fs \<and> files w (Path f) = Some n \<and> \<not> fails e OpOpen (Path f) \<and>
    \<not> fails e OpRead (Path f) \<and> \<not> protected e w (Path f) \<and>
    hex_EncodeToString (blake2b_256 e (n_data n)) \<noteq> Hash f \<longrightarrow>
      fst (verify_file e w f) = NeedDownload \<and> f \<in> set (fst (verifyFiles e fs w)))"
proof -
  have ok: "fst (verify_file e w f) = OK \<longrightarrow>
      (\<exists>n. files w (Path f) = Some n \<and>
         hex_EncodeToString (blake2b_256 e (n_data n)) = Hash f)"
    unfolding verify_file_OK_iff by blast
  have kept: "fst (verify_file e w f) = OK"
    if a: "f \<in> set fs \<and> f \<notin> set (fst (verifyFiles e fs w)) \<and> \<not> protected e w (Path f)"
  proof -
    from a have "fst (verify_file e w f) \<noteq> NeedDownload" by (simp add: queued_iff)
    moreover from a have "fst (verify_file e w f) \<noteq> Skipped"
      by (simp add: verify_file_Skipped_iff)
    ultimately show ?thesis by (cases "fst (verify_file e w f)") simp_all
  qed
  have stale: "fst (verify_file e w f) = NeedDownload \<and> f \<in> set (fst (verifyFiles e fs w))"
    if a: "f \<in> set fs \<and> files w (Path f) = Some n \<and> \<not> fails e OpOpen (Path f) \<and>
      \<not> fails e OpRead (Path f) \<and> \<not> protected e w (Path f) \<and>
      hex_EncodeToString (blake2b_256 e (n_data n)) \<noteq> Hash f"
  proof -
    from a have "fst (verify_file e w f) = NeedDownload"
      unfolding verify_file_Need_iff by blast
    with a show ?thesis by (simp add: queued_iff)
  qed
  from ok kept stale show ?thesis by blast
qed

theorem verifyFiles_digest_witness:
  "fst (verify_file test_env test_world file_a) = OK \<and>
   (\<exists>n. files test_world (Path file_a) = Some n \<and>
      hex_EncodeToString (blake2b_256 test_env (n_data n)) = Hash file_a) \<and>
   \<not> protected test_env test_world (Path file_b) \<and>
   hex_EncodeToString (blake2b_256 test_env [2]) \<noteq> Hash file_b \<and>
   file_b \<in> set (fst (verifyFiles test_env [file_a, file_b] test_world)) \<and>
   file_a \<notin> set (fst (verifyFiles test_env [file_a, file_b] test_world))"
  using verifyFiles_digest [of test_env test_world file_a "[file_a, file_b]"
      "\<lparr>n_data = [1], n_mode = 420, n_mtime = None\<rparr>"]
    verifyFiles_digest [of test_env test_world file_b "[file_a, file_b]"
      "\<lparr>n_data = [2], n_mode = 288, n_mtime = None\<rparr>"]
  by (simp add: verify_a verify_b queued_iff b_not_protected)
     (simp add: file_b_def file_a_def test_env_def hex_01 hex_02 test_world_def protected_def)

text \<open>
  C10: an entry whose file does not exist or cannot be opened for any other reason, and
  an entry whose file fails while it is read for hashing, are classified as needing download
  and are queued; \<^verbatim>\<open>verifyFiles\<close> itself always returns, and what it returns is a
  subsequence of the entries it was given.
\<close>

theorem verifyFiles_total:
  "((files w (Path f) = None \<or> fails e OpOpen (Path f)) \<longrightarrow>
      fst (verify_file e w f) = NeedDownload) \<and>
   (\<not> protected e w (Path f) \<and> fails e OpRead (Path f) \<longrightarrow>
      fst (verify_file e w f) = NeedDownload) \<and>
   (f \<in> set fs \<and> fst (verify_file e w f) = NeedDownload \<longrightarrow>
      f \<in> set (fst (verifyFiles e fs w))) \<and>
   (\<exists>q w'. verifyFiles e fs w = (q, w') \<and> subseq q fs)"
proof (intro conjI impI)
  assume "files w (Path f) = None \<or> fails e OpOpen (Path f)"
  then show "fst (verify_file e w f) = NeedDownload" unfolding verify_file_Need_iff by blast
next
  assume "\<not> protected e w (Path f) \<and> fails e OpRead (Path f)"
  then show "fst (verify_file e w f) = NeedDownload" unfolding verify_file_Need_iff by blast
next
  assume "f \<in> set fs \<and> fst (verify_file e w f) = NeedDownload"
  then show "f \<in> set (fst (verifyFiles e fs w))" by (simp add: queued_iff)
next
  from verifyFiles_char[of e fs w] obtain w' where
    "verifyFiles e fs w = (filter (\<lambda>f. fst (verify_file e w f) = NeedDownload) fs, w')" by blast
  then show "\<exists>q w'. verifyFiles e fs w = (q, w') \<and> subseq q fs" by simp
qed

theorem verifyFiles_total_witness:
  "files test_world (Path file_d) = None \<and>
   fst (verify_file test_env test_world file_d) = NeedDownload \<and>
   file_d \<in> set (fst (verifyFiles test_env [file_a, file_d] test_world)) \<and>
   \<not> protected (test_env\<lparr>fails := (\<lambda>op p. op = OpRead)\<rparr>) test_world (Path file_a) \<and>
   fst (verify_file (test_env\<lparr>fails := (\<lambda>op p. op = OpRead)\<rparr>) test_world file_a) = NeedDownload \<and>
   file_a \<in> set (fst (verifyFiles (test_env\<lparr>fails := (\<lambda>op p. op = OpRead)\<rparr>) [file_a, file_d] test_world))"
  using verifyFiles_total [of test_world file_d test_env "[file_a, file_d]"]
    verifyFiles_total [of test_world file_a "test_env\<lparr>fails := (\<lambda>op p. op = OpRead)\<rparr>" "[file_a, file_d]"]
  by (simp add: protected_def test_world_def file_a_def file_d_def test_env_def)

section \<open>File-system calls and what a download leaves alone\<close>

lemma tmp_name_neq [simp]: "tmp_name p \<noteq> p" "p \<noteq> tmp_name p"
  by (simp_all add: tmp_name_def)

lemma tmp_name_inj [simp]: "tmp_name p = tmp_name q \<longleftrightarrow> p = q"
  by (simp add: tmp_name_def)

lemma os_Create_Inr:
  "os_Create e w q = Inr w' \<Longrightarrow>
     files w' = (files w)(q \<mapsto> (case files w q of
          None \<Rightarrow> \<lparr>n_data = [], n_mode = 438 AND NOT (umask e), n_mtime = None\<rparr>
        | Some n \<Rightarrow> n\<lparr>n_data := [], n_mtime := None\<rparr>)) \<and> sent w' = sent w \<and> wg w' = wg w"
  by (auto simp add: os_Create_def split: if_splits)

lemma os_Create_ok: "\<not> fails e OpCreate q \<Longrightarrow> \<exists>w'. os_Create e w q = Inr w'"
  by (simp add: os_Create_def)

lemma os_Create_data:
  "os_Create e w q = Inr w' \<Longrightarrow> \<exists>n. files w' q = Some n \<and> n_data n = []"
  by (auto simp add: os_Create_def split: if_splits option.splits)

lemma file_write_Inr:
  "file_write e w q bs = Inr w' \<Longrightarrow>
     (\<exists>n. files w q = Some n \<and>
        files w' = (files w)(q \<mapsto> n\<lparr>n_data := n_data n @ bs, n_mtime := None\<rparr>)) \<and>
     sent w' = sent w \<and> wg w' = wg w"
  by (auto simp add: file_write_def split: if_splits option.splits)

lemma file_write_ok:
  "\<not> fails e OpWrite q \<Longrightarrow> files w q = Some n \<Longrightarrow>
   file_write e w q bs = Inr (w\<lparr>files := (files w)(q \<mapsto> n\<lparr>n_data := n_data n @ bs, n_mtime := None\<rparr>)\<rparr>)"
  by (simp add: file_write_def)

lemma os_Remove_files:
  "files (os_Remove e w q) p = (if p = q \<and> \<not> fails e OpRemove q then None else files w p)"
  "sent (os_Remove e w q) = sent w" "wg (os_Remove e w q) = wg w"
  by (simp_all add: os_Remove_def)


lemma os_Chtimes_same:
  "files (os_Chtimes e w q t) q =
     (if fails e OpChtimes q then files w q else map_option (\<lambda>n. n\<lparr>n_mtime := Some t\<rparr>) (files w q))"
  by (simp add: os_Chtimes_def split: option.splits)

lemma open_out_Inr:
  assumes "open_out e fn url force w = Inr (x, ok, w')"
  shows "sent w' = sent w \<and> wg w' = wg w \<and> r_url x = url \<and>
     (\<forall>p. p \<noteq> tmp_name fn \<longrightarrow> files w' p = files w p)"
proof (cases "os_Stat e w (tmp_name fn) \<noteq> Inl OsError \<and> \<not> force")
  case True
  then obtain info where "os_Stat e w (tmp_name fn) = Inr info"
    by (cases "os_Stat e w (tmp_name fn)") (auto simp add: os_Stat_def split: option.splits if_splits)
  with True assms show ?thesis
    by (auto simp add: open_out_def Let_def split: if_splits)
next
  case False
  then have "open_out e fn url force w =
      (case os_Create e w (tmp_name fn) of
             Inl err \<Rightarrow> Inr (\<lparr>r_url = url, r_range = None\<rparr>, False, w)
           | Inr w' \<Rightarrow> Inr (\<lparr>r_url = url, r_range = None\<rparr>, True, w'))"
    by (cases "os_Stat e w (tmp_name fn)") (auto simp add: open_out_def os_Stat_def split: option.splits if_splits)
  with assms show ?thesis
    by (cases "os_Create e w (tmp_name fn)") (auto dest: os_Create_Inr)
qed

lemma fetch_partial_frame:
  assumes "p \<noteq> tmp_name (Path f)"
  shows "files (snd (fetch_partial e f url force w)) p = files w p"
proof (cases "url_ok e url")
  case False
  then show ?thesis by (simp add: fetch_partial_def)
next
  case u: True
  show ?thesis
  proof (cases "open_out e (Path f) url force w")
    case (Inl err)
    with u show ?thesis by (simp add: fetch_partial_def)
  next
    case (Inr r)
    obtain x ok w1 where r: "r = (x, ok, w1)" by (cases r)
    from open_out_Inr[OF Inr[unfolded r]] assms have w1: "files w1 p = files w p" by simp
    show ?thesis
    proof (cases "http_do e (length (sent w1)) x")
      case (Inl err)
      with u Inr r w1 show ?thesis by (simp add: fetch_partial_def Let_def)
    next
      case resp: (Inr resp)
      show ?thesis
      proof (cases "file_write e (w1\<lparr>sent := sent w1 @ [x]\<rparr>) (tmp_name (Path f)) (body resp)")
        case (Inl err)
        with u Inr r w1 resp show ?thesis by (simp add: fetch_partial_def Let_def)
      next
        case w3: (Inr w3)
        from file_write_Inr[OF w3] assms w1 have "files w3 p = files w p" by auto
        with u Inr r w1 resp w3 show ?thesis by (simp add: fetch_partial_def Let_def)
      qed
    qed
  qed
qed



lemma worker_loop_True:
  "worker_loop e f url True v =
     (case downloadFile e f url True v of
        (r, v') \<Rightarrow> ([(True, r)], if is_err r then wg_Done v' else v'))"
  by (subst worker_loop.simps) (simp add: Let_def split: prod.splits)

lemma worker_loop_False:
  "worker_loop e f url False v =
     (case downloadFile e f url False v of
        (r, v') \<Rightarrow> if is_err r
           then (case worker_loop e f url True v' of (calls, v'') \<Rightarrow> ((False, r) # calls, v''))
           else ([(False, r)], v'))"
  by (subst worker_loop.simps) (simp add: Let_def split: prod.splits)



lemma os_Stat_Inr: "os_Stat e w p = Inr info \<Longrightarrow> files w p = Some info \<and> \<not> fails e OpStat p"
  by (auto simp add: os_Stat_def split: option.splits if_splits)


lemma open_out_resume:
  "\<not> force \<Longrightarrow> os_Stat e w (tmp_name fn) = Inr info \<Longrightarrow> \<not> fails e OpAppend (tmp_name fn) \<Longrightarrow>
   open_out e fn url force w =
     Inr (\<lparr>r_url = url, r_range = Some (range_header (length (n_data info)))\<rparr>, True, w)"
  by (simp add: open_out_def Let_def)

lemma open_out_fresh:
  "force \<or> os_Stat e w (tmp_name fn) = Inl OsError \<Longrightarrow>
   open_out e fn url force w =
     (case os_Create e w (tmp_name fn) of
        Inl err \<Rightarrow> Inr (\<lparr>r_url = url, r_range = None\<rparr>, False, w)
      | Inr w' \<Rightarrow> Inr (\<lparr>r_url = url, r_range = None\<rparr>, True, w'))"
  by (cases "os_Stat e w (tmp_name fn)") (auto simp add: open_out_def)

lemma fetch_partial_sent:
  "url_ok e url \<Longrightarrow> open_out e (Path f) url force w = Inr (x, ok, w1) \<Longrightarrow>
   sent (snd (fetch_partial e f url force w)) = sent w1 @ [x]"
proof -
  assume u: "url_ok e url" and o: "open_out e (Path f) url force w = Inr (x, ok, w1)"
  show ?thesis
  proof (cases "http_do e (length (sent w1)) x")
    case (Inl err)
    with u o show ?thesis by (simp add: fetch_partial_def Let_def)
  next
    case resp: (Inr resp)
    show ?thesis
    proof (cases "file_write e (w1\<lparr>sent := sent w1 @ [x]\<rparr>) (tmp_name (Path f)) (body resp)")
      case (Inl err)
      with u o resp show ?thesis by (simp add: fetch_partial_def Let_def)
    next
      case w3: (Inr w3)
      from file_write_Inr[OF w3] have "sent w3 = sent w1 @ [x]" by simp
      with u o resp w3 show ?thesis by (simp add: fetch_partial_def Let_def)
    qed
  qed
qed

lemma fetch_partial_written:
  assumes u: "url_ok e url" and o: "open_out e (Path f) url force w = Inr (x, True, w1)"
    and t: "files w1 (tmp_name (Path f)) = Some t"
    and r: "http_do e (length (sent w1)) x = Inr resp"
    and wr: "\<not> fails e OpWrite (tmp_name (Path f))"
  shows "fetch_partial e f url force w =
     (if body_err resp then DlErr NetError else DlOk,
      w1\<lparr>sent := sent w1 @ [x],
         files := (files w1)(tmp_name (Path f) \<mapsto> t\<lparr>n_data := n_data t @ body resp, n_mtime := None\<rparr>)\<rparr>)"
proof -
  have "file_write e (w1\<lparr>sent := sent w1 @ [x]\<rparr>) (tmp_name (Path f)) (body resp) =
     Inr (w1\<lparr>sent := sent w1 @ [x],
         files := (files w1)(tmp_name (Path f) \<mapsto> t\<lparr>n_data := n_data t @ body resp, n_mtime := None\<rparr>)\<rparr>)"
    using wr t by (simp add: file_write_def)
  with u o r show ?thesis by (simp add: fetch_partial_def Let_def)
qed

lemma fetch_partial_refused:
  assumes u: "url_ok e url" and o: "open_out e (Path f) url force w = Inr (x, ok, w1)"
    and r: "http_do e (length (sent w1)) x = Inl err"
  shows "fetch_partial e f url force w = (DlErr err, w1\<lparr>sent := sent w1 @ [x]\<rparr>)"
  using u o r by (simp add: fetch_partial_def Let_def)

lemma show_nat_2: "show_nat 2 = ''2''"
  by code_simp

lemma range_header_2: "range_header 2 = ''bytes=2-''"
  by (simp add: range_header_def show_nat_2)

lemma range_header_SS: "range_header (Suc (Suc 0)) = ''bytes=2-''"
  using range_header_2 by (simp add: numeral_2_eq_2)

lemma dl_refused_1:
  "downloadFile test_env file_d u False test_world =
    (DlErr NetError, test_world\<lparr>files := (files test_world)(''d.tmp'' \<mapsto> \<lparr>n_data = [], n_mode = 420, n_mtime = None\<rparr>),
       sent := [\<lparr>r_url = u, r_range = None\<rparr>]\<rparr>)"
  by (simp add: downloadFile_def fetch_partial_def open_out_def os_Stat_def os_Create_def
      test_env_def test_world_def file_d_def tmp_name_def Let_def)

lemma dl_refused_2:
  "downloadFile test_env file_d u True
     (test_world\<lparr>files := (files test_world)(''d.tmp'' \<mapsto> \<lparr>n_data = [], n_mode = 420, n_mtime = None\<rparr>),
       sent := [\<lparr>r_url = u, r_range = None\<rparr>]\<rparr>) =
    (DlErr NetError, test_world\<lparr>files := (files test_world)(''d.tmp'' \<mapsto> \<lparr>n_data = [], n_mode = 420, n_mtime = None\<rparr>),
       sent := [\<lparr>r_url = u, r_range = None\<rparr>, \<lparr>r_url = u, r_range = None\<rparr>]\<rparr>)"
  by (simp add: downloadFile_def fetch_partial_def open_out_def os_Stat_def os_Create_def
      test_env_def test_world_def file_d_def tmp_name_def Let_def)

lemma stat_resume:
  "os_Stat serving_env resume_world (tmp_name (Path file_d)) =
     Inr \<lparr>n_data = [7, 8], n_mode = 420, n_mtime = None\<rparr>"
  by (simp add: os_Stat_def serving_env_def test_env_def resume_world_def file_d_def tmp_name_def)

lemma fetch_broken:
  "fetch_partial broken_codec_env file_a ''u'' False test_world =
     (DlOk, test_world\<lparr>files := (files test_world)(''a.tmp'' \<mapsto> \<lparr>n_data = [9], n_mode = 420, n_mtime = None\<rparr>),
       sent := [\<lparr>r_url = ''u'', r_range = None\<rparr>]\<rparr>)"
  by (simp add: fetch_partial_def open_out_def os_Stat_def os_Create_def file_write_def
      broken_codec_env_def serving_env_def test_env_def test_world_def file_a_def tmp_name_def Let_def)

section \<open>Claims about the fetcher\<close>

text \<open>
  C2: for each job \<^verbatim>\<open>worker\<close> runs its retry loop, starting not forced. The loop is a
  total function, and it never calls
  \<^verbatim>\<open>downloadFile\<close> more than twice for a job. When the first call (not forced, as
  \<^verbatim>\<open>DefaultForceDownload\<close> says) and the forced call that follows it both return an error,
  these two calls are all it makes, in this order, and it then gives the job up with one
  \<^verbatim>\<open>wg.Done()\<close>.
\<close>

theorem worker_retry_bound:
  "worker_job e cdns wid j w =
     worker_loop e j (format_url (cdns ! (wid mod length cdns)) (Path j)) DefaultForceDownload w \<and>
   length (fst (worker_loop e j url force w)) \<le> 2 \<and>
   (is_err (fst (downloadFile e j url False w)) \<and>
    is_err (fst (downloadFile e j url True (snd (downloadFile e j url False w)))) \<longrightarrow>
      worker_loop e j url DefaultForceDownload w =
        ([(False, fst (downloadFile e j url False w)),
          (True, fst (downloadFile e j url True (snd (downloadFile e j url False w))))],
         wg_Done (snd (downloadFile e j url True (snd (downloadFile e j url False w))))))"
proof -
  have job: "worker_job e cdns wid j w =
     worker_loop e j (format_url (cdns ! (wid mod length cdns)) (Path j)) DefaultForceDownload w"
    by (simp add: worker_job_def)
  have one: "length (fst (worker_loop e j url True v)) = 1" for v
    by (simp add: worker_loop_True split: prod.splits)
  have bound: "length (fst (worker_loop e j url force w)) \<le> 2"
  proof (cases force)
    case True
    with one[of w] show ?thesis by simp
  next
    case False
    obtain r v' where d: "downloadFile e j url False w = (r, v')"
      by (cases "downloadFile e j url False w")
    obtain calls v'' where l: "worker_loop e j url True v' = (calls, v'')"
      by (cases "worker_loop e j url True v'")
    from one[of v'] l have "length calls = 1" by simp
    with False d l show ?thesis by (simp add: worker_loop_False)
  qed
  have twice: "worker_loop e j url DefaultForceDownload w =
        ([(False, fst (downloadFile e j url False w)),
          (True, fst (downloadFile e j url True (snd (downloadFile e j url False w))))],
         wg_Done (snd (downloadFile e j url True (snd (downloadFile e j url False w)))))"
    if a: "is_err (fst (downloadFile e j url False w)) \<and>
      is_err (fst (downloadFile e j url True (snd (downloadFile e j url False w))))"
  proof -
    obtain r v' where d: "downloadFile e j url False w = (r, v')"
      by (cases "downloadFile e j url False w")
    obtain r2 v2 where d2: "downloadFile e j url True v' = (r2, v2)"
      by (cases "downloadFile e j url True v'")
    from a d d2 show ?thesis
      by (simp add: DefaultForceDownload_def worker_loop_False worker_loop_True)
  qed
  from job bound twice show ?thesis by blast
qed

theorem worker_retry_bound_witness:
  "is_err (fst (downloadFile test_env file_d ''u'' False test_world)) \<and>
   is_err (fst (downloadFile test_env file_d ''u'' True
      (snd (downloadFile test_env file_d ''u'' False test_world)))) \<and>
   map fst (fst (worker_loop test_env file_d ''u'' DefaultForceDownload test_world)) = [False, True] \<and>
   length (fst (worker_loop test_env file_d ''u'' DefaultForceDownload test_world)) = 2"
  using worker_retry_bound [of test_env "[0]" 0 file_d test_world "''u''" DefaultForceDownload]
  by (simp add: dl_refused_1 dl_refused_2)

text \<open>
  C6: on an attempt that is not forced, with a partial file that \<^verbatim>\<open>os.Stat\<close> finds, the
  request sent carries the range header \<^verbatim>\<open>bytes=N-\<close> with \<open>N\<close> the size of the partial
  file, and the body received is appended to the partial file. On a forced attempt, and when
  \<^verbatim>\<open>os.Stat\<close> finds no partial file, the request carries no range header, the partial file
  is created empty, and it holds exactly the body received (nothing when the request fails).
\<close>

theorem fetch_partial_resume:
  "(\<not> force \<and> os_Stat e w (tmp_name (Path f)) = Inr info \<and> url_ok e url \<and>
    \<not> fails e OpAppend (tmp_name (Path f)) \<longrightarrow>
      sent (snd (fetch_partial e f url force w)) =
        sent w @ [\<lparr>r_url = url, r_range = Some (range_header (length (n_data info)))\<rparr>] \<and>
      (http_do e (length (sent w))
          \<lparr>r_url = url, r_range = Some (range_header (length (n_data info)))\<rparr> = Inr resp \<and>
       \<not> fails e OpWrite (tmp_name (Path f)) \<longrightarrow>
         (\<exists>t. files (snd (fetch_partial e f url force w)) (tmp_name (Path f)) = Some t \<and>
            n_data t = n_data info @ body resp))) \<and>
   ((force \<or> os_Stat e w (tmp_name (Path f)) = Inl OsError) \<and> url_ok e url \<longrightarrow>
      sent (snd (fetch_partial e f url force w)) = sent w @ [\<lparr>r_url = url, r_range = None\<rparr>] \<and>
      (\<not> fails e OpCreate (tmp_name (Path f)) \<longrightarrow>
         (http_do e (length (sent w)) \<lparr>r_url = url, r_range = None\<rparr> = Inl err \<longrightarrow>
            (\<exists>t. files (snd (fetch_partial e f url force w)) (tmp_name (Path f)) = Some t \<and>
               n_data t = [])) \<and>
         (http_do e (length (sent w)) \<lparr>r_url = url, r_range = None\<rparr> = Inr resp \<and>
          \<not> fails e OpWrite (tmp_name (Path f)) \<longrightarrow>
            (\<exists>t. files (snd (fetch_partial e f url force w)) (tmp_name (Path f)) = Some t \<and>
               n_data t = body resp))))"
proof -
  let ?tmp = "tmp_name (Path f)"
  let ?w' = "snd (fetch_partial e f url force w)"
  have resume: "sent ?w' = sent w @ [\<lparr>r_url = url, r_range = Some (range_header (length (n_data info)))\<rparr>] \<and>
      (http_do e (length (sent w))
          \<lparr>r_url = url, r_range = Some (range_header (length (n_data info)))\<rparr> = Inr resp \<and>
       \<not> fails e OpWrite ?tmp \<longrightarrow>
         (\<exists>t. files ?w' ?tmp = Some t \<and> n_data t = n_data info @ body resp))"
    if a: "\<not> force \<and> os_Stat e w ?tmp = Inr info \<and> url_ok e url \<and> \<not> fails e OpAppend ?tmp"
  proof -
    let ?x = "\<lparr>r_url = url, r_range = Some (range_header (length (n_data info)))\<rparr>"
    from a have o: "open_out e (Path f) url force w = Inr (?x, True, w)"
      by (simp add: open_out_resume)
    from a have t: "files w ?tmp = Some info" using os_Stat_Inr[of e w ?tmp info] by simp
    from a o have s: "sent ?w' = sent w @ [?x]" by (simp add: fetch_partial_sent)
    have "\<exists>t. files ?w' ?tmp = Some t \<and> n_data t = n_data info @ body resp"
      if b: "http_do e (length (sent w)) ?x = Inr resp \<and> \<not> fails e OpWrite ?tmp"
      using fetch_partial_written[OF _ o t, of resp] a b by simp
    with s show ?thesis by blast
  qed
  have fresh: "sent ?w' = sent w @ [\<lparr>r_url = url, r_range = None\<rparr>] \<and>
      (\<not> fails e OpCreate ?tmp \<longrightarrow>
         (http_do e (length (sent w)) \<lparr>r_url = url, r_range = None\<rparr> = Inl err \<longrightarrow>
            (\<exists>t. files ?w' ?tmp = Some t \<and> n_data t = [])) \<and>
         (http_do e (length (sent w)) \<lparr>r_url = url, r_range = None\<rparr> = Inr resp \<and>
          \<not> fails e OpWrite ?tmp \<longrightarrow>
            (\<exists>t. files ?w' ?tmp = Some t \<and> n_data t = body resp)))"
    if a: "(force \<or> os_Stat e w ?tmp = Inl OsError) \<and> url_ok e url"
  proof -
    let ?x = "\<lparr>r_url = url, r_range = None\<rparr>"
    from a have oo: "open_out e (Path f) url force w =
       (case os_Create e w ?tmp of Inl err \<Rightarrow> Inr (?x, False, w) | Inr w' \<Rightarrow> Inr (?x, True, w'))"
      by (simp add: open_out_fresh)
    have s: "sent ?w' = sent w @ [?x]"
    proof (cases "os_Create e w ?tmp")
      case (Inl err)
      with oo a fetch_partial_sent[of e url f force w ?x False w] show ?thesis by simp
    next
      case (Inr w1)
      with oo a fetch_partial_sent[of e url f force w ?x True w1] os_Create_Inr[OF Inr]
      show ?thesis by simp
    qed
    have c: "(http_do e (length (sent w)) ?x = Inl err \<longrightarrow>
            (\<exists>t. files ?w' ?tmp = Some t \<and> n_data t = [])) \<and>
         (http_do e (length (sent w)) ?x = Inr resp \<and> \<not> fails e OpWrite ?tmp \<longrightarrow>
            (\<exists>t. files ?w' ?tmp = Some t \<and> n_data t = body resp))"
      if nc: "\<not> fails e OpCreate ?tmp"
    proof -
      from nc obtain w1 where w1: "os_Create e w ?tmp = Inr w1" using os_Create_ok by blast
      with oo have o: "open_out e (Path f) url force w = Inr (?x, True, w1)" by simp
      from os_Create_Inr[OF w1] have sw: "sent w1 = sent w" by simp
      from os_Create_data[OF w1] obtain t where t: "files w1 ?tmp = Some t" "n_data t = []" by blast
      have r1: "\<exists>t. files ?w' ?tmp = Some t \<and> n_data t = []"
        if "http_do e (length (sent w)) ?x = Inl err"
        using fetch_partial_refused[OF _ o, of err] a that sw t by simp
      have r2: "\<exists>t. files ?w' ?tmp = Some t \<and> n_data t = body resp"
        if "http_do e (length (sent w)) ?x = Inr resp \<and> \<not> fails e OpWrite ?tmp"
        using fetch_partial_written[OF _ o t(1), of resp] a that sw t by simp
      from r1 r2 show ?thesis by blast
    qed
    from s c show ?thesis by blast
  qed
  from resume fresh show ?thesis by blast
qed

theorem fetch_partial_resume_witness:
  "os_Stat serving_env resume_world (tmp_name (Path file_d)) =
     Inr \<lparr>n_data = [7, 8], n_mode = 420, n_mtime = None\<rparr> \<and>
   sent (snd (fetch_partial serving_env file_d ''u'' False resume_world)) =
     [\<lparr>r_url = ''u'', r_range = Some ''bytes=2-''\<rparr>] \<and>
   (\<exists>t. files (snd (fetch_partial serving_env file_d ''u'' False resume_world))
         (tmp_name (Path file_d)) = Some t \<and> n_data t = [7, 8, 9]) \<and>
   sent (snd (fetch_partial serving_env file_d ''u'' True resume_world)) =
     [\<lparr>r_url = ''u'', r_range = None\<rparr>] \<and>
   (\<exists>t. files (snd (fetch_partial serving_env file_d ''u'' True resume_world))
         (tmp_name (Path file_d)) = Some t \<and> n_data t = [9])"
proof -
  let ?info = "\<lparr>n_data = [7, 8], n_mode = 420, n_mtime = None\<rparr>"
  let ?resp = "\<lparr>body = [9], body_err = False\<rparr>"
  have env: "url_ok serving_env ''u''" "\<And>op p. \<not> fails serving_env op p"
    "\<And>k x. http_do serving_env k x = Inr ?resp"
    by (simp_all add: serving_env_def test_env_def)
  have a1: "\<not> False \<and> os_Stat serving_env resume_world (tmp_name (Path file_d)) = Inr ?info \<and>
      url_ok serving_env ''u'' \<and> \<not> fails serving_env OpAppend (tmp_name (Path file_d))"
    using env by (simp add: stat_resume)
  note c1 = fetch_partial_resume [of False serving_env resume_world file_d ?info "''u''" ?resp NetError,
      THEN conjunct1, THEN mp, OF a1]
  have a2: "(True \<or> os_Stat serving_env resume_world (tmp_name (Path file_d)) = Inl OsError) \<and>
      url_ok serving_env ''u''"
    using env by simp
  note c2 = fetch_partial_resume [of True serving_env resume_world file_d ?info "''u''" ?resp NetError,
      THEN conjunct2, THEN mp, OF a2]
  have s0: "sent resume_world = []" by (simp add: resume_world_def)
  from c1 c2 show ?thesis
    by (simp add: stat_resume range_header_SS s0 env)
qed

text \<open>
  C8: \<^verbatim>\<open>downloadFile\<close> creates (and so empties) the destination as soon as the transfer
  has succeeded, before the partial file is reopened and decompressed. When reopening,
  reading or decompressing then fails, \<^verbatim>\<open>downloadFile\<close> returns an error and the
  destination holds nothing, or only what the codec produced before it failed: whatever was
  installed there before is gone.
\<close>

theorem destination_truncated_first:
  assumes fp: "fetch_partial e f url force w = (DlOk, w1)"
    and nc: "\<not> fails e OpCreate (Path f)"
    and t: "files w1 (tmp_name (Path f)) = Some t"
    and bad: "fails e OpOpen (tmp_name (Path f)) \<or> fails e OpRead (tmp_name (Path f)) \<or>
       \<not> snd (s2_decode e (n_data t))"
  shows "\<exists>err w' n'. downloadFile e f url force w = (DlErr err, w') \<and>
     files w' (Path f) = Some n' \<and>
     n_data n' = (if fails e OpOpen (tmp_name (Path f)) \<or> fails e OpRead (tmp_name (Path f)) \<or>
                     fails e OpWrite (Path f) then []
                  else fst (s2_decode e (n_data t)))"
proof -
  let ?p = "Path f" and ?tmp = "tmp_name (Path f)"
  from nc obtain w2 where w2: "os_Create e w1 ?p = Inr w2" using os_Create_ok by blast
  from os_Create_data[OF w2] obtain n2 where n2: "files w2 ?p = Some n2" "n_data n2 = []" by blast
  from os_Create_Inr[OF w2] t have t2: "files w2 ?tmp = Some t" by simp
  have dl: "downloadFile e f url force w = install_partial e f w1"
    using fp by (simp add: downloadFile_def)
  show ?thesis
  proof (cases "fails e OpOpen ?tmp")
    case True
    with w2 t2 have "install_partial e f w1 = (DlErr OsError, w2)"
      by (simp add: install_partial_def os_Open_def)
    with dl n2 True show ?thesis by simp
  next
    case no: False
    with t2 have op: "os_Open e w2 ?tmp = Inr t" by (simp add: os_Open_def)
    show ?thesis
    proof (cases "fails e OpRead ?tmp")
      case True
      with w2 op have "install_partial e f w1 = (DlErr OsError, w2)"
        by (simp add: install_partial_def)
      with dl n2 True show ?thesis by simp
    next
      case nr: False
      obtain plain ok where dec: "s2_decode e (n_data t) = (plain, ok)"
        by (cases "s2_decode e (n_data t)")
      with bad no nr have nok: "\<not> ok" by simp
      show ?thesis
      proof (cases "fails e OpWrite ?p")
        case True
        then have "file_write e w2 ?p plain = Inl OsError" by (simp add: file_write_def)
        with w2 op nr dec have "install_partial e f w1 = (DlErr OsError, w2)"
          by (simp add: install_partial_def)
        with dl n2 True show ?thesis by simp
      next
        case False
        from file_write_ok[OF False n2(1), of plain]
        have "install_partial e f w1 = (DlErr DecodeError,
            w2\<lparr>files := (files w2)(?p \<mapsto> n2\<lparr>n_data := n_data n2 @ plain, n_mtime := None\<rparr>)\<rparr>)"
          using w2 op nr dec nok by (simp add: install_partial_def)
        with dl n2 False no nr dec show ?thesis by simp
      qed
    qed
  qed
qed

theorem destination_truncated_first_witness:
  "(\<exists>n. files test_world ''a'' = Some n \<and> n_data n = [1]) \<and>
   fst (fetch_partial broken_codec_env file_a ''u'' False test_world) = DlOk \<and>
   \<not> snd (s2_decode broken_codec_env [9]) \<and>
   (\<exists>err w' n'. downloadFile broken_codec_env file_a ''u'' False test_world = (DlErr err, w') \<and>
      files w' ''a'' = Some n' \<and> n_data n' = [])"
  using destination_truncated_first [of broken_codec_env file_a "''u''" False test_world
      "test_world\<lparr>files := (files test_world)(''a.tmp'' \<mapsto> \<lparr>n_data = [9], n_mode = 420, n_mtime = None\<rparr>),
       sent := [\<lparr>r_url = ''u'', r_range = None\<rparr>]\<rparr>"
      "\<lparr>n_data = [9], n_mode = 420, n_mtime = None\<rparr>"]
  by (simp add: fetch_broken)
     (simp add: broken_codec_env_def serving_env_def test_env_def test_world_def file_a_def tmp_name_def)

section \<open>Protected files and the whole run\<close>






lemma wg_Add_files [simp]: "files (wg_Add k w) = files w"
  by (simp add: wg_Add_def)













lemma os_Open_Inr: "os_Open e w p = Inr out \<Longrightarrow> files w p = Some out"
  by (auto simp add: os_Open_def split: option.splits if_splits)

lemma wg_Done_files [simp]: "files (wg_Done w) = files w"
  by (simp add: wg_Done_def)

lemma install_partial_DlOk:
  assumes ok: "install_partial e f w1 = (DlOk, w')"
  shows "\<exists>t n'. files w1 (tmp_name (Path f)) = Some t \<and> files w' (Path f) = Some n' \<and>
     s2_decode e (n_data t) = (n_data n', True) \<and>
     (\<forall>n. files w1 (Path f) = Some n \<longrightarrow> n_mode n' = n_mode n)"
proof -
  let ?p = "Path f" and ?tmp = "tmp_name (Path f)"
  from ok obtain w2 where w2: "os_Create e w1 ?p = Inr w2"
    by (cases "os_Create e w1 ?p") (simp_all add: install_partial_def)
  from ok w2 obtain out where out: "os_Open e w2 ?tmp = Inr out"
    by (cases "os_Open e w2 ?tmp") (simp_all add: install_partial_def)
  from ok w2 out have nr: "\<not> fails e OpRead ?tmp"
    by (cases "fails e OpRead ?tmp") (simp_all add: install_partial_def)
  obtain plain k where dec: "s2_decode e (n_data out) = (plain, k)"
    by (cases "s2_decode e (n_data out)")
  from ok w2 out nr dec obtain w3 where w3: "file_write e w2 ?p plain = Inr w3"
    by (cases "file_write e w2 ?p plain") (simp_all add: install_partial_def)
  from ok w2 out nr dec w3 have k: "k"
    by (cases k) (simp_all add: install_partial_def)
  from ok w2 out nr dec w3 k
  have w': "w' = wg_Done (os_Chtimes e (os_Remove e w3 ?tmp) ?p (LastModified f))"
    by (simp add: install_partial_def Let_def)
  from os_Create_Inr[OF w2] os_Open_Inr[OF out] have t: "files w1 ?tmp = Some out" by simp
  from os_Create_Inr[OF w2] obtain n2 where n2: "files w2 ?p = Some n2" "n_data n2 = []"
    "\<forall>n. files w1 ?p = Some n \<longrightarrow> n_mode n2 = n_mode n"
    by (cases "files w1 ?p") auto
  from file_write_Inr[OF w3] n2
  have f3: "files w3 ?p = Some (n2\<lparr>n_data := plain, n_mtime := None\<rparr>)" by auto
  then obtain n' where n': "files w' ?p = Some n'" "n_data n' = plain" "n_mode n' = n_mode n2"
    unfolding w' by (cases "fails e OpChtimes ?p") (simp_all add: os_Chtimes_same os_Remove_files)
  with t dec k n2(3) show ?thesis by auto
qed

lemma downloadFile_DlOk:
  assumes "downloadFile e f url force w = (DlOk, w')"
  shows "fst (fetch_partial e f url force w) = DlOk \<and>
     install_partial e f (snd (fetch_partial e f url force w)) = (DlOk, w')"
proof -
  obtain r w1 where fp: "fetch_partial e f url force w = (r, w1)"
    by (cases "fetch_partial e f url force w")
  with assms show ?thesis by (cases r) (simp_all add: downloadFile_def)
qed

lemma downloadFile_installs:
  assumes "downloadFile e f url force w = (DlOk, w')"
  shows "\<exists>t n'. files (snd (fetch_partial e f url force w)) (tmp_name (Path f)) = Some t \<and>
     files w' (Path f) = Some n' \<and> n_data n' = fst (s2_decode e (n_data t)) \<and>
     snd (s2_decode e (n_data t)) \<and>
     (\<forall>n. files w (Path f) = Some n \<longrightarrow> n_mode n' = n_mode n)"
proof -
  let ?w1 = "snd (fetch_partial e f url force w)"
  from downloadFile_DlOk[OF assms] have i: "install_partial e f ?w1 = (DlOk, w')" by simp
  have "files ?w1 (Path f) = files w (Path f)" by (simp add: fetch_partial_frame)
  with install_partial_DlOk[OF i] show ?thesis by auto
qed

lemma fetch_b:
  "fetch_partial serving_env file_b ''u'' False test_world =
     (DlOk, test_world\<lparr>files := (files test_world)(''b.tmp'' \<mapsto> \<lparr>n_data = [9], n_mode = 420, n_mtime = None\<rparr>),
       sent := [\<lparr>r_url = ''u'', r_range = None\<rparr>]\<rparr>)"
  by (simp add: fetch_partial_def open_out_def os_Stat_def os_Create_def file_write_def
      serving_env_def test_env_def test_world_def file_b_def tmp_name_def Let_def)

lemma download_b: "fst (downloadFile serving_env file_b ''u'' False test_world) = DlOk"
  by (simp add: downloadFile_def fetch_b)
     (simp add: install_partial_def os_Open_def os_Create_def file_write_def os_Remove_def
      os_Chtimes_def wg_Done_def serving_env_def test_env_def test_world_def file_b_def
      tmp_name_def Let_def)

section \<open>Claims about protected files\<close>




text \<open>
  C9: an entry is skipped as protected exactly when its file opens, its \<^verbatim>\<open>Stat\<close> succeeds
  and the mode equals \<^verbatim>\<open>0444\<close> (292). A file with any other mode, such as \<^verbatim>\<open>0440\<close> (288)
  or \<^verbatim>\<open>0555\<close> (365), is not skipped: when it opens and reads it is hashed, it needs
  download exactly when the digest differs from the recorded hash, it is then queued, and a
  download that succeeds replaces its content by the decompressed payload; the mode plays
  no part in the download and is kept.
\<close>

theorem protected_exactly_0444:
  "(fst (verify_file e w f) = Skipped \<longleftrightarrow>
      (\<exists>n. files w (Path f) = Some n \<and> \<not> fails e OpOpen (Path f) \<and>
         \<not> fails e OpStat (Path f) \<and> n_mode n = 292)) \<and>
   (files w (Path f) = Some n \<and> n_mode n \<noteq> 292 \<and> \<not> fails e OpOpen (Path f) \<and>
    \<not> fails e OpRead (Path f) \<longrightarrow>
      fst (verify_file e w f) \<noteq> Skipped \<and>
      (fst (verify_file e w f) = NeedDownload \<longleftrightarrow>
         hex_EncodeToString (blake2b_256 e (n_data n)) \<noteq> Hash f) \<and>
      (f \<in> set fs \<and> hex_EncodeToString (blake2b_256 e (n_data n)) \<noteq> Hash f \<longrightarrow>
         f \<in> set (fst (verifyFiles e fs w))) \<and>
      (downloadFile e f url force w = (DlOk, w') \<longrightarrow>
         (\<exists>t n'. files (snd (fetch_partial e f url force w)) (tmp_name (Path f)) = Some t \<and>
            files w' (Path f) = Some n' \<and> n_data n' = fst (s2_decode e (n_data t)) \<and>
            n_mode n' = n_mode n)))"
proof -
  have sk: "fst (verify_file e w f) = Skipped \<longleftrightarrow>
      (\<exists>n. files w (Path f) = Some n \<and> \<not> fails e OpOpen (Path f) \<and>
         \<not> fails e OpStat (Path f) \<and> n_mode n = 292)"
    by (simp add: verify_file_Skipped_iff protected_def)
  have rest: "fst (verify_file e w f) \<noteq> Skipped \<and>
      (fst (verify_file e w f) = NeedDownload \<longleftrightarrow>
         hex_EncodeToString (blake2b_256 e (n_data n)) \<noteq> Hash f) \<and>
      (f \<in> set fs \<and> hex_EncodeToString (blake2b_256 e (n_data n)) \<noteq> Hash f \<longrightarrow>
         f \<in> set (fst (verifyFiles e fs w))) \<and>
      (downloadFile e f url force w = (DlOk, w') \<longrightarrow>
         (\<exists>t n'. files (snd (fetch_partial e f url force w)) (tmp_name (Path f)) = Some t \<and>
            files w' (Path f) = Some n' \<and> n_data n' = fst (s2_decode e (n_data t)) \<and>
            n_mode n' = n_mode n))"
    if a: "files w (Path f) = Some n \<and> n_mode n \<noteq> 292 \<and> \<not> fails e OpOpen (Path f) \<and>
      \<not> fails e OpRead (Path f)"
  proof -
    from a have np: "\<not> protected e w (Path f)" by (simp add: protected_def)
    then have s: "fst (verify_file e w f) \<noteq> Skipped" by (simp add: verify_file_Skipped_iff)
    from a np have nd: "fst (verify_file e w f) = NeedDownload \<longleftrightarrow>
         hex_EncodeToString (blake2b_256 e (n_data n)) \<noteq> Hash f"
      by (simp add: verify_file_Need_iff)
    from nd have qd: "f \<in> set fs \<and> hex_EncodeToString (blake2b_256 e (n_data n)) \<noteq> Hash f \<longrightarrow>
         f \<in> set (fst (verifyFiles e fs w))"
      by (simp add: queued_iff)
    have dl: "\<exists>t n'. files (snd (fetch_partial e f url force w)) (tmp_name (Path f)) = Some t \<and>
            files w' (Path f) = Some n' \<and> n_data n' = fst (s2_decode e (n_data t)) \<and>
            n_mode n' = n_mode n"
      if d: "downloadFile e f url force w = (DlOk, w')"
      using downloadFile_installs[OF d] a by auto
    from s nd qd dl show ?thesis by blast
  qed
  from sk rest show ?thesis by blast
qed

theorem protected_exactly_0444_witness:
  "files test_world (Path file_b) = Some \<lparr>n_data = [2], n_mode = 288, n_mtime = None\<rparr> \<and>
   fst (verify_file serving_env test_world file_b) = NeedDownload \<and>
   file_b \<in> set (fst (verifyFiles serving_env [file_b] test_world)) \<and>
   (\<exists>n'. files (snd (downloadFile serving_env file_b ''u'' False test_world)) (Path file_b) = Some n' \<and>
      n_data n' = [9] \<and> n_mode n' = 288) \<and>
   fst (verify_file serving_env test_world file_c) = Skipped"
proof -
  let ?n = "\<lparr>n_data = [2], n_mode = 288, n_mtime = None\<rparr> :: node"
  let ?w' = "snd (downloadFile serving_env file_b ''u'' False test_world)"
  have a: "files test_world (Path file_b) = Some ?n \<and> n_mode ?n \<noteq> 292 \<and>
      \<not> fails serving_env OpOpen (Path file_b) \<and> \<not> fails serving_env OpRead (Path file_b)"
    by (simp add: test_world_def file_b_def serving_env_def test_env_def)
  have d: "downloadFile serving_env file_b ''u'' False test_world = (DlOk, ?w')"
    using download_b by (simp add: prod_eq_iff)
  have h: "hex_EncodeToString (blake2b_256 serving_env (n_data ?n)) \<noteq> Hash file_b"
    by (simp add: serving_env_def test_env_def hex_02 file_b_def)
  have t: "files (snd (fetch_partial serving_env file_b ''u'' False test_world)) (tmp_name (Path file_b)) =
      Some \<lparr>n_data = [9], n_mode = 420, n_mtime = None\<rparr>"
    by (simp add: fetch_b) (simp add: file_b_def tmp_name_def)
  have s: "s2_decode serving_env [9] = ([9], True)"
    by (simp add: serving_env_def test_env_def)
  have c: "\<exists>n. files test_world (Path file_c) = Some n \<and> \<not> fails serving_env OpOpen (Path file_c) \<and>
      \<not> fails serving_env OpStat (Path file_c) \<and> n_mode n = 292"
    by (simp add: test_world_def file_c_def serving_env_def test_env_def)
  note r = protected_exactly_0444 [of serving_env test_world file_b ?n "[file_b]" "''u''" False ?w',
      THEN conjunct2, THEN mp, OF a]
  from r a d h t s protected_exactly_0444 [of serving_env test_world file_c, THEN conjunct1] c
  show ?thesis by auto
qed

section \<open>A run followed by a second run\<close>


































section \<open>Claim about running twice\<close>




end
